theory Spec2Isabelle
  imports
    Main
    "HOL-Library.Word"
    "HOL-Library.Char_ord"
    "HOL-Library.List_Lexorder"
    "HOL-Library.Multiset"
begin

unbundle bit_operations_syntax

section \<open>The store of main3.py\<close>

text \<open>
  The program keeps three SQLite tables (\<^verbatim>\<open>init_db\<close>, lines 51-73). A table is the
  list of its rows in rowid order; a row is a record with the columns of the
  \<^verbatim>\<open>CREATE TABLE\<close> statement. Text columns are \<open>string\<close>s, compared as SQLite's
  default BINARY collation compares them (position by position, a proper prefix first),
  which is the lexicographic order on \<open>char list\<close>. A \<open>string\<close> is the UTF-8 form of
  the Python text. Integer columns are \<open>int\<close>. An integer that Python passes to a statement
  must fit SQLite's signed 64-bit integer (\<open>in_int64\<close>), or the call raises
  \<^verbatim>\<open>OverflowError\<close> before the statement runs; rowids and counters that SQLite computes
  itself are not bounded in the model.
\<close>

record user_row =
  u_id :: int
  username :: string
  password :: string
  u_created_at :: string

record artwork_row =
  a_id :: int
  user_id :: int
  title :: string
  image_data :: string
  likes :: int
  created_at :: string

record comment_row =
  c_id :: int
  c_artwork_id :: int
  c_user_id :: int
  comment :: string
  c_created_at :: string

record db =
  users :: "user_row list"
  artworks :: "artwork_row list"
  comments :: "comment_row list"

text \<open>\<^verbatim>\<open>init_db\<close> on a fresh file: three empty tables.\<close>

definition init_db :: db where
  "init_db = \<lparr>users = [], artworks = [], comments = []\<rparr>"

datatype sqlite_error = IntegrityError

datatype py_error = OverflowError

definition in_int64 :: "int \<Rightarrow> bool" where
  "in_int64 i = (- (2 ^ 63) \<le> i \<and> i < 2 ^ 63)"

text \<open>
  An \<^verbatim>\<open>INTEGER PRIMARY KEY\<close> column that an \<^verbatim>\<open>INSERT\<close> leaves out gets the
  largest rowid of the table plus one, and 1 in an empty table.
\<close>

definition next_rowid :: "int list \<Rightarrow> int" where
  "next_rowid ids = (if ids = [] then 1 else Max (set ids) + 1)"

subsection \<open>Authentication functions (lines 76-99)\<close>

text \<open>
  \<^verbatim>\<open>hashlib.sha256\<close> is a library function: it is a parameter \<open>sha256\<close> of the model,
  any function from the encoded password to a 256-bit digest. A \<open>string\<close> is a list
  of bytes, so \<^verbatim>\<open>password.encode()\<close> is the password itself. \<^verbatim>\<open>hexdigest\<close> writes
  the digest as 64 lower-case hexadecimal digits, most significant first.
\<close>

definition hex_digit :: "nat \<Rightarrow> char" where
  "hex_digit n = ''0123456789abcdef'' ! (n mod 16)"

definition hexdigest :: "256 word \<Rightarrow> string" where
  "hexdigest w = map (\<lambda>i. hex_digit (unat (drop_bit (4 * i) w AND 15))) (rev [0..<64])"

definition hash_password :: "(string \<Rightarrow> 256 word) \<Rightarrow> string \<Rightarrow> string" where
  "hash_password sha256 pw = hexdigest (sha256 pw)"

text \<open>
  \<^verbatim>\<open>INSERT INTO users (username, password, created_at)\<close>: the \<^verbatim>\<open>UNIQUE\<close> constraint
  on \<open>username\<close> makes the statement raise \<^verbatim>\<open>sqlite3.IntegrityError\<close> when a row
  with that username exists; otherwise the row goes to the end of the table.
\<close>

definition insert_user :: "db \<Rightarrow> string \<Rightarrow> string \<Rightarrow> string \<Rightarrow> sqlite_error + db" where
  "insert_user d un pw ts =
     (if un \<in> set (map username (users d)) then Inl IntegrityError
      else Inr (d\<lparr>users := users d @
             [\<lparr>u_id = next_rowid (map u_id (users d)), username = un,
               password = pw, u_created_at = ts\<rparr>]\<rparr>))"

text \<open>
  \<^verbatim>\<open>create_user\<close>: the insert inside \<^verbatim>\<open>try\<close>; \<open>True\<close> after the commit, \<open>False\<close>
  from the \<^verbatim>\<open>except sqlite3.IntegrityError\<close> branch. \<open>now\<close> is
  \<^verbatim>\<open>datetime.datetime.now().isoformat()\<close>, an input of the model.
\<close>

definition create_user ::
  "(string \<Rightarrow> 256 word) \<Rightarrow> db \<Rightarrow> string \<Rightarrow> string \<Rightarrow> string \<Rightarrow> bool \<times> db" where
  "create_user sha256 d un pw now =
     (case insert_user d un (hash_password sha256 pw) now of
        Inr d' \<Rightarrow> (True, d')
      | Inl IntegrityError \<Rightarrow> (False, d))"

text \<open>
  \<^verbatim>\<open>authenticate_user\<close>: \<^verbatim>\<open>fetchone\<close> gives the first row of the \<^verbatim>\<open>SELECT\<close>, or
  \<^verbatim>\<open>None\<close>; a row is a non-empty tuple, hence truthy, and its first field is returned.
\<close>

definition authenticate_user ::
  "(string \<Rightarrow> 256 word) \<Rightarrow> db \<Rightarrow> string \<Rightarrow> string \<Rightarrow> int option" where
  "authenticate_user sha256 d un pw =
     (case filter (\<lambda>u. username u = un \<and> password u = hash_password sha256 pw) (users d) of
        [] \<Rightarrow> None
      | u # _ \<Rightarrow> Some (u_id u))"

subsection \<open>Artwork functions (lines 102-125)\<close>

text \<open>
  \<^verbatim>\<open>save_artwork\<close>: one \<^verbatim>\<open>INSERT\<close> that names neither \<open>id\<close> nor \<open>likes\<close>, so the
  row gets the next rowid and the column default 0. The program never issues
  \<^verbatim>\<open>PRAGMA foreign_keys = ON\<close>, so SQLite does not check the \<^verbatim>\<open>FOREIGN KEY\<close> clause
  of the table and the insert succeeds for every \<open>user_id\<close> that fits 64 bits; for any
  other the call raises \<^verbatim>\<open>OverflowError\<close> and stores nothing. The function has no
  \<^verbatim>\<open>return\<close> statement: a call that returns evaluates to Python's \<^verbatim>\<open>None\<close>, the
  first component of the result.
\<close>

definition save_artwork ::
  "db \<Rightarrow> int \<Rightarrow> string \<Rightarrow> string \<Rightarrow> string \<Rightarrow> py_error + (int option \<times> db)" where
  "save_artwork d uid ttl img now =
     (if in_int64 uid
      then Inr (None, d\<lparr>artworks := artworks d @
             [\<lparr>a_id = next_rowid (map a_id (artworks d)), user_id = uid, title = ttl,
               image_data = img, likes = 0, created_at = now\<rparr>]\<rparr>)
      else Inl OverflowError)"

text \<open>
  A row of \<^verbatim>\<open>get_artworks\<close>, in the order of the \<^verbatim>\<open>SELECT\<close> list:
  \<open>(a.id, a.title, a.image_data, a.likes, a.created_at, u.username)\<close>.
\<close>

type_synonym gallery_row = "int \<times> string \<times> string \<times> int \<times> string \<times> string"

definition row_id :: "gallery_row \<Rightarrow> int" where
  "row_id r = fst r"

definition row_title :: "gallery_row \<Rightarrow> string" where
  "row_title r = fst (snd r)"

definition row_created_at :: "gallery_row \<Rightarrow> string" where
  "row_created_at r = fst (snd (snd (snd (snd r))))"

definition row_artist :: "gallery_row \<Rightarrow> string" where
  "row_artist r = snd (snd (snd (snd (snd r))))"

text \<open>
  \<^verbatim>\<open>FROM artworks a JOIN users u ON a.user_id = u.id\<close>: for every artwork in rowid
  order, one row for every user whose id is the artwork's \<open>user_id\<close>. An artwork whose
  \<open>user_id\<close> matches no user gives no row.
\<close>

definition join_artworks_users :: "db \<Rightarrow> gallery_row list" where
  "join_artworks_users d =
     concat (map (\<lambda>a. map (\<lambda>u. (a_id a, title a, image_data a, likes a, created_at a, username u))
                         (filter (\<lambda>u. u_id u = user_id a) (users d)))
                 (artworks d))"

text \<open>
  \<^verbatim>\<open>ORDER BY a.created_at DESC\<close>. The statement names no second key; SQLite's sorter
  leaves rows with equal keys in the order the scan produced them, which the model
  follows: a row is placed behind the rows with a larger key and in front of the rows
  already there with an equal or smaller key, the rows being taken from the last to the
  first.
\<close>

fun place_desc :: "('a \<Rightarrow> 'k::linorder) \<Rightarrow> 'a \<Rightarrow> 'a list \<Rightarrow> 'a list" where
  "place_desc key x [] = [x]"
| "place_desc key x (y # ys) =
     (if key x < key y then y # place_desc key x ys else x # y # ys)"

fun order_by_desc :: "('a \<Rightarrow> 'k::linorder) \<Rightarrow> 'a list \<Rightarrow> 'a list" where
  "order_by_desc key [] = []"
| "order_by_desc key (x # xs) = place_desc key x (order_by_desc key xs)"

definition get_artworks :: "db \<Rightarrow> gallery_row list" where
  "get_artworks d = order_by_desc row_created_at (join_artworks_users d)"

text \<open>
  \<^verbatim>\<open>like_artwork\<close>: \<^verbatim>\<open>UPDATE artworks SET likes = likes + 1 WHERE id = ?\<close> changes the
  rows whose id is the argument and no other; an update that matches no row is not an
  error. An argument that does not fit 64 bits raises \<^verbatim>\<open>OverflowError\<close> and the store
  stays as it was. (At \<open>likes = 2 ^ 63 - 1\<close> SQLite computes \<open>likes + 1\<close> as a
  floating-point number; the model adds 1.)
\<close>

definition like_artwork :: "db \<Rightarrow> int \<Rightarrow> py_error + db" where
  "like_artwork d aid =
     (if in_int64 aid
      then Inr (d\<lparr>artworks :=
             map (\<lambda>a. if a_id a = aid then a\<lparr>likes := likes a + 1\<rparr> else a) (artworks d)\<rparr>)
      else Inl OverflowError)"

text \<open>
  \<open>n\<close> calls one after the other, each on the store the one before left; an exception
  ends the sequence.
\<close>

fun repeat_call :: "nat \<Rightarrow> ('s \<Rightarrow> 'e + 's) \<Rightarrow> 's \<Rightarrow> 'e + 's" where
  "repeat_call 0 f s = Inr s"
| "repeat_call (Suc n) f s = (case f s of Inl e \<Rightarrow> Inl e | Inr s' \<Rightarrow> repeat_call n f s')"

subsection \<open>Community Gallery page (lines 233-285)\<close>

text \<open>
  \<^verbatim>\<open>str.lower\<close> is a built-in that follows the Unicode tables. The model has the part
  of the tables for ASCII and for the Greek alphabet (U+0391 to U+03A9 and U+03B1 to
  U+03C9, two bytes each in UTF-8), and leaves every other character as it is, which
  \<^verbatim>\<open>str.lower\<close> does not do in general: what is proved below from \<open>py_lower\<close> says which
  text it covers.
  \<^item> ASCII: the letters A to Z go to a to z (\<open>lower_char\<close>), every other byte stays.
  \<^item> Greek capital letters go to the small letter 32 code points further.
  \<^item> Capital sigma (U+03A3, bytes CE A3) goes to the final small sigma (U+03C2, bytes
    CF 82) when a cased letter comes before it and none comes after it, case-ignorable
    characters (apostrophe, full stop, colon, circumflex and grave accent in ASCII) being
    skipped on both sides; otherwise to the small sigma (U+03C3, bytes CF 83).
\<close>

definition is_ascii :: "string \<Rightarrow> bool" where
  "is_ascii s = list_all (\<lambda>c. (of_char c :: nat) < 128) s"

definition lower_char :: "char \<Rightarrow> char" where
  "lower_char c = (if CHR ''A'' \<le> c \<and> c \<le> CHR ''Z'' then char_of (of_char c + (32::nat)) else c)"

definition ascii_letter :: "char \<Rightarrow> bool" where
  "ascii_letter c =
     ((65 \<le> (of_char c :: nat) \<and> (of_char c :: nat) \<le> 90)
      \<or> (97 \<le> (of_char c :: nat) \<and> (of_char c :: nat) \<le> 122))"

definition case_ignorable :: "char \<Rightarrow> bool" where
  "case_ignorable c = ((of_char c :: nat) \<in> {0x27, 0x2E, 0x3A, 0x5E, 0x60})"

text \<open>The two bytes are a letter of the Greek alphabet, capital or small.\<close>

definition greek_letter :: "char \<Rightarrow> char \<Rightarrow> bool" where
  "greek_letter l s =
     (((of_char l :: nat) = 0xCE
        \<and> ((0x91 \<le> (of_char s :: nat) \<and> (of_char s :: nat) \<le> 0xA1)
           \<or> (0xA3 \<le> (of_char s :: nat) \<and> (of_char s :: nat) \<le> 0xA9)
           \<or> (0xB1 \<le> (of_char s :: nat) \<and> (of_char s :: nat) \<le> 0xBF)))
      \<or> ((of_char l :: nat) = 0xCF
        \<and> 0x80 \<le> (of_char s :: nat) \<and> (of_char s :: nat) \<le> 0x89))"

text \<open>
  A cased letter comes before (the text before, last byte first) or after, once the
  case-ignorable characters next to the position are skipped.
\<close>

fun cased_before :: "string \<Rightarrow> bool" where
  "cased_before [] = False"
| "cased_before (c # cs) =
     (if case_ignorable c then cased_before cs
      else ascii_letter c \<or> (case cs of [] \<Rightarrow> False | l # _ \<Rightarrow> greek_letter l c))"

fun cased_after :: "string \<Rightarrow> bool" where
  "cased_after [] = False"
| "cased_after (c # cs) =
     (if case_ignorable c then cased_after cs
      else ascii_letter c \<or> (case cs of [] \<Rightarrow> False | s # _ \<Rightarrow> greek_letter c s))"

fun lower_from :: "string \<Rightarrow> string \<Rightarrow> string" where
  "lower_from prev [] = []"
| "lower_from prev [c] = [lower_char c]"
| "lower_from prev (c # s # cs) =
     (if (of_char c :: nat) = 0xCE \<and> (of_char s :: nat) = 0xA3
      then (if cased_before prev \<and> \<not> cased_after cs
            then [char_of (0xCF :: nat), char_of (0x82 :: nat)]
            else [char_of (0xCF :: nat), char_of (0x83 :: nat)])
           @ lower_from (s # c # prev) cs
      else if (of_char c :: nat) = 0xCE \<and> 0x91 \<le> (of_char s :: nat) \<and> (of_char s :: nat) \<le> 0x9F
      then [c, char_of ((of_char s :: nat) + 0x20)] @ lower_from (s # c # prev) cs
      else if (of_char c :: nat) = 0xCE \<and> 0xA0 \<le> (of_char s :: nat) \<and> (of_char s :: nat) \<le> 0xA9
              \<and> (of_char s :: nat) \<noteq> 0xA2
      then [char_of (0xCF :: nat), char_of ((of_char s :: nat) - 0x20)] @ lower_from (s # c # prev) cs
      else lower_char c # lower_from (c # prev) (s # cs))"

definition py_lower :: "string \<Rightarrow> string" where
  "py_lower s = lower_from [] s"

text \<open>
  \<^verbatim>\<open>sub in s\<close> on strings: \<open>sub\<close> occurs in \<open>s\<close> as a block of adjacent characters,
  which for UTF-8 forms is a block of adjacent bytes.
\<close>

fun startswith :: "string \<Rightarrow> string \<Rightarrow> bool" where
  "startswith s [] = True"
| "startswith [] (p # ps) = False"
| "startswith (c # cs) (p # ps) = (c = p \<and> startswith cs ps)"

fun py_in :: "string \<Rightarrow> string \<Rightarrow> bool" where
  "py_in sub [] = (sub = [])"
| "py_in sub (c # cs) = (startswith (c # cs) sub \<or> py_in sub cs)"

datatype sort_option = Newest | Most_Liked

text \<open>
  The loop over the fetched rows (lines 247-283). A row is skipped by \<^verbatim>\<open>continue\<close>
  when the search term is non-empty (truthy) and its lower-case form occurs neither in
  the lower-case title nor in the lower-case artist name; every other row is rendered as
  a card. The result is the list of rows rendered, in the order of rendering.
\<close>

fun gallery_loop :: "string \<Rightarrow> gallery_row list \<Rightarrow> gallery_row list" where
  "gallery_loop search_term [] = []"
| "gallery_loop search_term (artwork # rest) =
     (case artwork of (artwork_id, ttl, img, lks, created, artist) \<Rightarrow>
        if search_term \<noteq> [] \<and> \<not> py_in (py_lower search_term) (py_lower ttl)
           \<and> \<not> py_in (py_lower search_term) (py_lower artist)
        then gallery_loop search_term rest
        else artwork # gallery_loop search_term rest)"

text \<open>
  The page: \<open>search_term\<close> and \<open>sort_by\<close> are the values of the two widgets;
  \<open>sort_by\<close> is assigned on line 241 and read nowhere. With no rows at all the page
  shows a notice and no card.
\<close>

definition community_gallery :: "db \<Rightarrow> string \<Rightarrow> sort_option \<Rightarrow> gallery_row list" where
  "community_gallery d search_term sort_by =
     (let rows = get_artworks d in if rows \<noteq> [] then gallery_loop search_term rows else [])"

subsection \<open>The application as a transition system\<close>

text \<open>
  Streamlit runs the script once per user interaction, with one \<^verbatim>\<open>st.session_state\<close>
  per browser session; the sessions share the database file. The state is the store and
  the session state of every session (numbered); an event is one button press that reaches
  one of the functions above.
\<close>

record session =
  s_user_id :: "int option"
  s_username :: "string option"

record app =
  store :: db
  sessions :: "nat \<Rightarrow> session"

datatype event =
    Sign_Up nat string string string
  | Login nat string string
  | Logout nat
  | Save_Artwork nat string string string
  | Like nat string sort_option int

definition logged_out :: session where
  "logged_out = \<lparr>s_user_id = None, s_username = None\<rparr>"

definition init_app :: app where
  "init_app = \<lparr>store = init_db, sessions = (\<lambda>k. logged_out)\<rparr>"

text \<open>
  \<^item> Sign up and login (lines 150-171) are offered while \<open>user_id\<close> of the session is
    \<^verbatim>\<open>None\<close>; login stores the id only when it is truthy (not \<^verbatim>\<open>None\<close>, not 0).
  \<^item> Logout (lines 173-177) is offered otherwise.
  \<^item> Save (lines 216-228) is offered when the session's \<open>user_id\<close> is truthy and passes
    that id to \<^verbatim>\<open>save_artwork\<close>.
  \<^item> A like button (lines 275-277) exists for every card of the gallery page and passes
    the id of the card's row. A card of any search is a card of the empty search, which
    shows every row, so the states reached do not depend on what \<open>py_lower\<close> does
    with text outside its tables.
  \<^item> A call that raises ends the run of the script with the store as it was.
\<close>

fun step :: "(string \<Rightarrow> 256 word) \<Rightarrow> app \<Rightarrow> event \<Rightarrow> app" where
  "step sha256 s (Sign_Up k un pw now) =
     (if s_user_id (sessions s k) = None
      then s\<lparr>store := snd (create_user sha256 (store s) un pw now)\<rparr> else s)"
| "step sha256 s (Login k un pw) =
     (if s_user_id (sessions s k) = None
      then (case authenticate_user sha256 (store s) un pw of
              None \<Rightarrow> s
            | Some uid \<Rightarrow>
                if uid \<noteq> 0
                then s\<lparr>sessions := (sessions s)(k := \<lparr>s_user_id = Some uid, s_username = Some un\<rparr>)\<rparr>
                else s)
      else s)"
| "step sha256 s (Logout k) =
     (if s_user_id (sessions s k) = None then s
      else s\<lparr>sessions := (sessions s)(k := logged_out)\<rparr>)"
| "step sha256 s (Save_Artwork k ttl img now) =
     (case s_user_id (sessions s k) of
        None \<Rightarrow> s
      | Some uid \<Rightarrow>
          if uid \<noteq> 0
          then (case save_artwork (store s) uid ttl img now of
                  Inl e \<Rightarrow> s
                | Inr (r, d') \<Rightarrow> s\<lparr>store := d'\<rparr>)
          else s)"
| "step sha256 s (Like k search_term sort_by aid) =
     (if aid \<in> set (map row_id (community_gallery (store s) search_term sort_by))
      then (case like_artwork (store s) aid of
              Inl e \<Rightarrow> s
            | Inr d' \<Rightarrow> s\<lparr>store := d'\<rparr>)
      else s)"

definition run :: "(string \<Rightarrow> 256 word) \<Rightarrow> event list \<Rightarrow> app" where
  "run sha256 evs = foldl (step sha256) init_app evs"

subsection \<open>Properties of the specification, in its own words\<close>

text \<open>Every artwork's owner is a user of the store.\<close>

definition owners_exist :: "db \<Rightarrow> bool" where
  "owners_exist d = list_all (\<lambda>a. user_id a \<in> set (map u_id (users d))) (artworks d)"

text \<open>
  The specification's search: \<open>term\<close> is a case-insensitive substring of \<open>s\<close> when
  some block of \<open>s\<close>, as long as \<open>term\<close>, agrees with it position by position, two
  bytes agreeing when they are equal or are the capital and the small form of one ASCII
  letter. (Case pairs outside ASCII are not in this relation: it asks for less than
  the specification's words do there, and equal text always agrees.)
\<close>

definition ascii_capital :: "char \<Rightarrow> bool" where
  "ascii_capital c = (65 \<le> (of_char c :: nat) \<and> (of_char c :: nat) \<le> 90)"

definition same_letter :: "char \<Rightarrow> char \<Rightarrow> bool" where
  "same_letter a b =
     (a = b
      \<or> (ascii_capital a \<and> (of_char b :: nat) = of_char a + 32)
      \<or> (ascii_capital b \<and> (of_char a :: nat) = of_char b + 32))"

definition contains_ci :: "string \<Rightarrow> string \<Rightarrow> bool" where
  "contains_ci s term =
     (\<exists>i \<in> {0 .. length s - length term}.
        list_all2 same_letter term (take (length term) (drop i s)))"

definition filterBySearchTerm :: "gallery_row list \<Rightarrow> string \<Rightarrow> gallery_row list" where
  "filterBySearchTerm results term =
     filter (\<lambda>r. contains_ci (row_title r) term \<or> contains_ci (row_artist r) term) results"

text \<open>
  The row the specification's \<open>listAll\<close> shows for an artwork: its columns and the
  username of a user whose id is the artwork's \<open>user_id\<close>.
\<close>

definition joined :: "db \<Rightarrow> gallery_row \<Rightarrow> artwork_row \<Rightarrow> bool" where
  "joined d r a =
     (\<exists>u \<in> set (users d). u_id u = user_id a \<and>
        r = (a_id a, title a, image_data a, likes a, created_at a, username u))"

text \<open>
  What the store and the sessions keep between events: ids and usernames are not
  repeated, every artwork has its owner among the users, and a logged-in session holds
  the id of a user.
\<close>

definition app_inv :: "app \<Rightarrow> bool" where
  "app_inv s =
     (distinct (map u_id (users (store s)))
      \<and> distinct (map username (users (store s)))
      \<and> distinct (map a_id (artworks (store s)))
      \<and> owners_exist (store s)
      \<and> (\<forall>k uid. s_user_id (sessions s k) = Some uid \<longrightarrow> uid \<in> set (map u_id (users (store s)))))"

section \<open>Row ids\<close>

lemma next_rowid_fresh: "next_rowid ids \<notin> set ids"
proof (cases "ids = []")
  case True
  then show ?thesis by simp
next
  case False
  have "\<And>i. i \<in> set ids \<Longrightarrow> i \<le> Max (set ids)"
    by simp
  then have "\<And>i. i \<in> set ids \<Longrightarrow> i < next_rowid ids"
    using False by (fastforce simp: next_rowid_def)
  then show ?thesis by blast
qed

section \<open>Account service\<close>


lemma create_user_cases:
  "snd (create_user sha256 d un pw now) = d
   \<or> (un \<notin> set (map username (users d))
      \<and> snd (create_user sha256 d un pw now) =
          d\<lparr>users := users d @ [\<lparr>u_id = next_rowid (map u_id (users d)), username = un,
               password = hash_password sha256 pw, u_created_at = now\<rparr>]\<rparr>)"
  by (simp add: create_user_def insert_user_def)

lemma authenticate_user_Some:
  "authenticate_user sha256 d un pw = Some uid \<Longrightarrow> uid \<in> set (map u_id (users d))"
proof -
  assume a: "authenticate_user sha256 d un pw = Some uid"
  then obtain u us where
    f: "filter (\<lambda>u. username u = un \<and> password u = hash_password sha256 pw) (users d) = u # us"
    and "uid = u_id u"
    by (auto simp: authenticate_user_def split: list.splits)
  have "u \<in> set (filter (\<lambda>u. username u = un \<and> password u = hash_password sha256 pw) (users d))"
    by (simp add: f)
  then have "u \<in> set (users d)"
    by simp
  with \<open>uid = u_id u\<close> show ?thesis by simp
qed

text \<open>
  A digest has 256 bits and there are infinitely many passwords, so whatever function
  \<open>sha256\<close> is, two different passwords have the same stored hash.
\<close>

lemma finite_range_hash: "finite (range (hash_password sha256))"
proof -
  have "range (hash_password sha256) \<subseteq> range hexdigest"
    by (auto simp: hash_password_def)
  then show ?thesis by (rule finite_subset) simp
qed

lemma hash_collision: "\<exists>pw pw'. pw' \<noteq> pw \<and> hash_password sha256 pw' = hash_password sha256 pw"
proof (rule ccontr)
  assume "\<not> ?thesis"
  then have "inj (hash_password sha256)"
    by (auto simp: inj_on_def)
  then have "finite (UNIV :: string set)"
    using finite_range_hash by (rule finite_imageD[rotated])
  then show False by (simp add: infinite_UNIV_listI)
qed

section \<open>Sorting and joining\<close>

lemma mset_place_desc: "mset (place_desc key x ys) = add_mset x (mset ys)"
  by (induction ys) simp_all

lemma mset_order_by_desc: "mset (order_by_desc key xs) = mset xs"
  by (induction xs) (simp_all add: mset_place_desc)

lemma set_place_desc: "set (place_desc key x ys) = insert x (set ys)"
  using mset_place_desc [of key x ys, THEN arg_cong, of set_mset] by simp

lemma sorted_place_desc:
  "sorted_wrt (\<lambda>a b. key b \<le> key a) ys \<Longrightarrow> sorted_wrt (\<lambda>a b. key b \<le> key a) (place_desc key x ys)"
proof (induction ys)
  case Nil
  then show ?case by simp
next
  case (Cons y ys)
  show ?case
  proof (cases "key x < key y")
    case True
    with Cons show ?thesis by (auto simp: set_place_desc)
  next
    case False
    with Cons.prems show ?thesis by (auto intro: order_trans)
  qed
qed

lemma sorted_order_by_desc: "sorted_wrt (\<lambda>a b. key b \<le> key a) (order_by_desc key xs)"
  by (induction xs) (simp_all add: sorted_place_desc)

lemma filter_place_desc:
  "filter (\<lambda>r. key r = k) (place_desc key x ys) = filter (\<lambda>r. key r = k) (x # ys)"
  by (induction ys) auto

lemma filter_order_by_desc:
  "filter (\<lambda>r. key r = k) (order_by_desc key xs) = filter (\<lambda>r. key r = k) xs"
  by (induction xs) (simp_all add: filter_place_desc)

lemma filter_unique:
  assumes "distinct (map f xs)" "x \<in> set xs"
  shows "filter (\<lambda>y. f y = f x) xs = [x]"
  using assms
proof (induction xs)
  case Nil
  then show ?case by simp
next
  case (Cons y ys)
  show ?case
  proof (cases "y = x")
    case True
    then have "filter (\<lambda>y. f y = f x) ys = []"
      using Cons.prems(1) by (auto simp: filter_empty_conv image_iff)
    with True show ?thesis by simp
  next
    case False
    with Cons show ?thesis by auto
  qed
qed

lemma join_one_per_artwork:
  assumes "distinct (map u_id (users d))" and "owners_exist d"
  shows "list_all2 (joined d) (join_artworks_users d) (artworks d)"
proof -
  have one: "\<exists>u \<in> set (users d). u_id u = user_id a \<and>
               filter (\<lambda>u. u_id u = user_id a) (users d) = [u]"
    if "a \<in> set (artworks d)" for a
  proof -
    from that assms(2) obtain u where u: "u \<in> set (users d)" "u_id u = user_id a"
      by (auto simp: owners_exist_def list_all_iff)
    with filter_unique [OF assms(1) u(1)] show ?thesis by auto
  qed
  have "list_all2 (joined d)
          (concat (map (\<lambda>a. map (\<lambda>u. (a_id a, title a, image_data a, likes a, created_at a, username u))
                         (filter (\<lambda>u. u_id u = user_id a) (users d))) as)) as"
    if "set as \<subseteq> set (artworks d)" for as
    using that
  proof (induction as)
    case Nil
    then show ?case by simp
  next
    case (Cons a as)
    then obtain u where "u \<in> set (users d)" "u_id u = user_id a"
      "filter (\<lambda>u. u_id u = user_id a) (users d) = [u]"
      using one [of a] by auto
    with Cons show ?case by (auto simp: joined_def)
  qed
  then show ?thesis by (simp add: join_artworks_users_def)
qed

section \<open>Searching\<close>

lemma startswith_take: "startswith s p \<longleftrightarrow> take (length p) s = p"
  by (induction s p rule: startswith.induct) auto

lemma lower_char_eq_iff: "lower_char a = lower_char b \<longleftrightarrow> same_letter a b"
proof -
  have inj: "char_of (m :: nat) = char_of n \<longleftrightarrow> m = n" if "m < 256" "n < 256" for m n
    using that by (metis of_char_of mod_less)
  have lt: "(of_char c :: nat) < 256" for c
    by simp
  have cap: "CHR ''A'' \<le> c \<and> c \<le> CHR ''Z'' \<longleftrightarrow> ascii_capital c" for c
    by (simp add: ascii_capital_def less_eq_char_def)
  have low: "lower_char c = (if ascii_capital c then char_of (of_char c + (32::nat)) else c)" for c
    by (simp add: lower_char_def cap)
  have of_low: "(of_char (lower_char c) :: nat) = (if ascii_capital c then of_char c + 32 else of_char c)" for c
    by (auto simp: low ascii_capital_def)
  have "lower_char a = lower_char b \<longleftrightarrow> (of_char (lower_char a) :: nat) = of_char (lower_char b)"
    by simp
  also have "\<dots> \<longleftrightarrow> same_letter a b"
    unfolding of_low same_letter_def by (auto simp: ascii_capital_def)
  finally show ?thesis .
qed

lemma py_lower_ascii:
  assumes "is_ascii s"
  shows "py_lower s = map lower_char s"
proof -
  have "lower_from prev s = map lower_char s" if "is_ascii s" for prev
    using that
  proof (induction prev s rule: lower_from.induct)
    case (1 prev)
    then show ?case by simp
  next
    case (2 prev c)
    then show ?case by simp
  next
    case (3 prev c s cs)
    from "3.prems" have c: "(of_char c :: nat) \<noteq> 0xCE" and rest: "is_ascii (s # cs)"
      by (auto simp: is_ascii_def)
    from "3.IH"(4) c rest show ?case by simp
  qed
  with assms show ?thesis by (simp add: py_lower_def)
qed

lemma py_in_iff: "py_in sub s \<longleftrightarrow> (\<exists>i. take (length sub) (drop i s) = sub)"
proof (induction s)
  case Nil
  then show ?case by auto
next
  case (Cons c cs)
  have "(\<exists>i. take (length sub) (drop i (c # cs)) = sub)
        \<longleftrightarrow> take (length sub) (c # cs) = sub \<or> (\<exists>j. take (length sub) (drop j cs) = sub)"
  proof
    assume "\<exists>i. take (length sub) (drop i (c # cs)) = sub"
    then obtain i where i: "take (length sub) (drop i (c # cs)) = sub" ..
    then show "take (length sub) (c # cs) = sub \<or> (\<exists>j. take (length sub) (drop j cs) = sub)"
      by (cases i) auto
  next
    assume "take (length sub) (c # cs) = sub \<or> (\<exists>j. take (length sub) (drop j cs) = sub)"
    then show "\<exists>i. take (length sub) (drop i (c # cs)) = sub"
    proof
      assume "take (length sub) (c # cs) = sub"
      then have "take (length sub) (drop 0 (c # cs)) = sub" by simp
      then show ?thesis by blast
    next
      assume "\<exists>j. take (length sub) (drop j cs) = sub"
      then obtain j where "take (length sub) (drop (Suc j) (c # cs)) = sub" by auto
      then show ?thesis by blast
    qed
  qed
  with Cons show ?case by (simp add: startswith_take)
qed

lemma same_letter_map:
  "list_all2 same_letter a b \<longleftrightarrow> map lower_char b = map lower_char a"
proof (induction a arbitrary: b)
  case Nil
  then show ?case by simp
next
  case (Cons x xs)
  then show ?case
    by (cases b) (auto simp: lower_char_eq_iff [symmetric])
qed

lemma offset_in_range:
  assumes "take (length t) (drop i s) = t"
  shows "\<exists>j \<le> length s - length t. take (length t) (drop j s) = t"
proof (cases "t = []")
  case True
  then have "0 \<le> length s - length t \<and> take (length t) (drop 0 s) = t" by simp
  then show ?thesis by blast
next
  case False
  have pos: "0 < length t"
    using False by simp
  have "length (take (length t) (drop i s)) = length t"
    using assms by simp
  then have "min (length t) (length s - i) = length t"
    by simp
  then have "i \<le> length s - length t"
    using pos by arith
  with assms show ?thesis by blast
qed

lemma contains_ci_iff:
  "contains_ci s term \<longleftrightarrow> py_in (map lower_char term) (map lower_char s)"
proof -
  have lower_block: "map lower_char (take n (drop i s)) = take n (drop i (map lower_char s))" for n i
    by (simp add: take_map drop_map)
  have "contains_ci s term
        \<longleftrightarrow> (\<exists>i \<le> length s - length term.
               take (length (map lower_char term)) (drop i (map lower_char s)) = map lower_char term)"
    by (simp add: contains_ci_def same_letter_map lower_block Bex_def)
  also have "\<dots> \<longleftrightarrow> (\<exists>i. take (length (map lower_char term)) (drop i (map lower_char s))
                              = map lower_char term)"
    using offset_in_range [of "map lower_char term" _ "map lower_char s"] by auto
  finally show ?thesis by (simp add: py_in_iff)
qed

lemma contains_ci_empty: "contains_ci s []"
  unfolding contains_ci_def by (intro bexI[of _ 0]) simp_all

lemma gallery_loop_empty_term: "gallery_loop [] results = results"
proof (induction results)
  case Nil
  then show ?case by simp
next
  case (Cons r rs)
  then show ?case by (cases r) simp
qed

text \<open>
  On ASCII text the gallery loop renders exactly the rows whose title or artist contains
  the search term as a case-insensitive substring.
\<close>

lemma gallery_loop_filter_ascii:
  assumes "is_ascii search_term"
    and "list_all (\<lambda>r. is_ascii (row_title r) \<and> is_ascii (row_artist r)) results"
  shows "gallery_loop search_term results = filterBySearchTerm results search_term"
  using assms(2)
proof (induction results)
  case Nil
  then show ?case by (simp add: filterBySearchTerm_def)
next
  case (Cons r rs)
  obtain i t img l c a where r: "r = (i, t, img, l, c, a)"
    by (cases r)
  from Cons.prems have t: "is_ascii t" and a: "is_ascii a"
    and rest: "list_all (\<lambda>r. is_ascii (row_title r) \<and> is_ascii (row_artist r)) rs"
    by (simp_all add: r row_title_def row_artist_def)
  note IH = Cons.IH [OF rest]
  show ?case
  proof (cases "search_term = []")
    case True
    with IH show ?thesis
      by (simp add: r filterBySearchTerm_def contains_ci_empty)
  next
    case False
    with IH show ?thesis
      by (simp add: r filterBySearchTerm_def contains_ci_iff row_title_def row_artist_def
            py_lower_ascii [OF assms(1)] py_lower_ascii [OF t] py_lower_ascii [OF a])
  qed
qed

section \<open>What every reachable state satisfies\<close>

lemma app_inv_init: "app_inv init_app"
  by (simp add: app_inv_def init_app_def init_db_def owners_exist_def logged_out_def)

lemma app_inv_sign_up:
  assumes "app_inv s"
  shows "app_inv (s\<lparr>store := snd (create_user sha256 (store s) un pw now)\<rparr>)"
proof -
  consider "snd (create_user sha256 (store s) un pw now) = store s"
    | "un \<notin> set (map username (users (store s)))"
      "snd (create_user sha256 (store s) un pw now) =
          (store s)\<lparr>users := users (store s) @ [\<lparr>u_id = next_rowid (map u_id (users (store s))),
               username = un, password = hash_password sha256 pw, u_created_at = now\<rparr>]\<rparr>"
    using create_user_cases [of sha256 "store s" un pw now] by blast
  then show ?thesis
  proof cases
    case 1
    with assms show ?thesis by (simp add: app_inv_def)
  next
    case 2
    with assms next_rowid_fresh [of "map u_id (users (store s))"] show ?thesis
      by (auto simp: app_inv_def owners_exist_def list_all_iff)
  qed
qed

lemma app_inv_save:
  assumes "app_inv s" and "s_user_id (sessions s k) = Some uid"
    and "save_artwork (store s) uid ttl img now = Inr (r, d')"
  shows "app_inv (s\<lparr>store := d'\<rparr>)"
  using assms next_rowid_fresh [of "map a_id (artworks (store s))"]
  by (auto simp: app_inv_def owners_exist_def list_all_iff save_artwork_def split: if_splits)

lemma app_inv_like:
  assumes "app_inv s" and "like_artwork (store s) aid = Inr d'"
  shows "app_inv (s\<lparr>store := d'\<rparr>)"
proof -
  have ids: "a_id \<circ> (\<lambda>a. if a_id a = aid then a\<lparr>likes := likes a + 1\<rparr> else a) = a_id"
    by (auto simp: fun_eq_iff)
  show ?thesis
    using assms
    by (auto simp: app_inv_def owners_exist_def list_all_iff like_artwork_def ids split: if_splits)
qed

lemma app_inv_step:
  assumes "app_inv s"
  shows "app_inv (step sha256 s ev)"
proof (cases ev)
  case (Sign_Up k un pw now)
  then show ?thesis using app_inv_sign_up [OF assms] assms by simp
next
  case (Login k un pw)
  show ?thesis
  proof (cases "authenticate_user sha256 (store s) un pw")
    case None
    with Login assms show ?thesis by simp
  next
    case (Some uid)
    from authenticate_user_Some [OF Some] assms
    have "app_inv (s\<lparr>sessions := (sessions s)(k := \<lparr>s_user_id = Some uid, s_username = Some un\<rparr>)\<rparr>)"
      by (simp add: app_inv_def)
    with Login Some assms show ?thesis by simp
  qed
next
  case (Logout k)
  with assms show ?thesis by (simp add: app_inv_def logged_out_def)
next
  case (Save_Artwork k ttl img now)
  then show ?thesis using assms app_inv_save [OF assms]
    by (auto split: option.splits sum.splits)
next
  case (Like k search_term sort_by aid)
  then show ?thesis using assms app_inv_like [OF assms]
    by (auto split: sum.splits)
qed

lemma app_inv_run: "app_inv (run sha256 evs)"
  by (induction evs rule: rev_induct) (simp_all add: run_def app_inv_init app_inv_step)

section \<open>Auxiliary facts for the claims\<close>

lemma get_artworks_of_store:
  assumes "distinct (map u_id (users d))" and "owners_exist d"
  shows "\<exists>J. list_all2 (joined d) J (artworks d)
    \<and> mset (get_artworks d) = mset J
    \<and> sorted_wrt (\<lambda>r s. row_created_at s \<le> row_created_at r) (get_artworks d)
    \<and> (\<forall>k. filter (\<lambda>r. row_created_at r = k) (get_artworks d)
           = filter (\<lambda>r. row_created_at r = k) J)"
proof (intro exI[of _ "join_artworks_users d"] conjI allI)
  show "list_all2 (joined d) (join_artworks_users d) (artworks d)"
    using assms by (rule join_one_per_artwork)
  show "mset (get_artworks d) = mset (join_artworks_users d)"
    by (simp add: get_artworks_def mset_order_by_desc)
  show "sorted_wrt (\<lambda>r s. row_created_at s \<le> row_created_at r) (get_artworks d)"
    unfolding get_artworks_def by (rule sorted_order_by_desc)
  show "filter (\<lambda>r. row_created_at r = k) (get_artworks d)
           = filter (\<lambda>r. row_created_at r = k) (join_artworks_users d)" for k
    unfolding get_artworks_def by (rule filter_order_by_desc)
qed

lemma save_artwork_keeps_owners:
  assumes "owners_exist d" and "uid \<in> set (map u_id (users d))"
    and "save_artwork d uid ttl img now = Inr (r, d')"
  shows "owners_exist d'"
  using assms by (auto simp: owners_exist_def save_artwork_def split: if_splits)

text \<open>
  \<^verbatim>\<open>save_artwork\<close> called directly with an id that no user has, which no run of the
  application does, is not refused: the \<^verbatim>\<open>FOREIGN KEY\<close> clause is not enforced.
\<close>

lemma save_artwork_direct_unknown_owner:
  "\<exists>d'. save_artwork init_db 7 ''Sunrise'' ''iVBORw0KGgo='' ''2024-01-01T10:05:00'' = Inr (None, d')
        \<and> \<not> owners_exist d'"
  by (simp add: owners_exist_def save_artwork_def init_db_def in_int64_def)

lemma hexdigest_5_7: "hexdigest 5 \<noteq> hexdigest 7"
  by code_simp

text \<open>
  Calls of \<^verbatim>\<open>like_artwork\<close> for one id, one after the other: \<open>n\<close> calls add \<open>n\<close> to
  the counter of the artwork with that id and change nothing else. Calls that overlap in
  time are outside this model.
\<close>

lemma like_artwork_repeated:
  assumes "in_int64 aid"
  shows "repeat_call n (\<lambda>d. like_artwork d aid) d
     = Inr (d\<lparr>artworks :=
              map (\<lambda>a. if a_id a = aid then a\<lparr>likes := likes a + int n\<rparr> else a) (artworks d)\<rparr>)"
proof (induction n arbitrary: d)
  case 0
  show ?case by (simp add: map_idI)
next
  case (Suc n)
  have one: "like_artwork x aid
      = Inr (x\<lparr>artworks :=
               map (\<lambda>a. if a_id a = aid then a\<lparr>likes := likes a + 1\<rparr> else a) (artworks x)\<rparr>)" for x
    using assms by (simp add: like_artwork_def)
  have "repeat_call (Suc n) (\<lambda>d. like_artwork d aid) d
      = repeat_call n (\<lambda>d. like_artwork d aid)
          (d\<lparr>artworks :=
               map (\<lambda>a. if a_id a = aid then a\<lparr>likes := likes a + 1\<rparr> else a) (artworks d)\<rparr>)"
    by (simp add: one [of d])
  also have "\<dots> = Inr (d\<lparr>artworks :=
              map (\<lambda>a. if a_id a = aid then a\<lparr>likes := likes a + int (Suc n)\<rparr> else a)
                (artworks d)\<rparr>)"
    by (simp add: Suc)
  finally show ?case .
qed

text \<open>
  Two runs of the code on concrete data: a gallery with two artworks saved at the same
  instant, and a search.
\<close>

lemma gallery_example:
  "get_artworks (store (run (\<lambda>p. of_nat (length p))
       [Sign_Up 0 ''asha'' ''pass123'' ''2024-01-01T10:00:00'',
        Sign_Up 1 ''ravi'' ''secret'' ''2024-01-01T10:01:00'',
        Login 0 ''asha'' ''pass123'',
        Login 1 ''ravi'' ''secret'',
        Save_Artwork 0 ''Sunrise'' ''aa'' ''2024-01-01T10:05:00'',
        Save_Artwork 1 ''Noon'' ''bb'' ''2024-01-01T12:00:00'',
        Save_Artwork 0 ''Noon again'' ''cc'' ''2024-01-01T12:00:00'',
        Save_Artwork 0 ''Later'' ''dd'' ''2024-01-01T12:00:00.000250'',
        Like 1 '''' Newest 3, Like 0 ''NOON'' Most_Liked 3, Like 1 ''x'' Newest 9]))
   = [(4, ''Later'', ''dd'', 0, ''2024-01-01T12:00:00.000250'', ''asha''),
      (2, ''Noon'', ''bb'', 0, ''2024-01-01T12:00:00'', ''ravi''),
      (3, ''Noon again'', ''cc'', 2, ''2024-01-01T12:00:00'', ''asha''),
      (1, ''Sunrise'', ''aa'', 0, ''2024-01-01T10:05:00'', ''asha'')]"
  by code_simp

lemma search_example:
  "gallery_loop ''KOLAM''
     [(1, ''My Kolam Creation'', ''aa'', 0, ''2024-01-01T10:05:00'', ''asha''),
      (2, ''Sunrise'', ''bb'', 0, ''2024-01-01T10:04:00'', ''Kolamfan''),
      (3, ''Sunset'', ''cc'', 0, ''2024-01-01T10:03:00'', ''ravi'')]
   = [(1, ''My Kolam Creation'', ''aa'', 0, ''2024-01-01T10:05:00'', ''asha''),
      (2, ''Sunrise'', ''bb'', 0, ''2024-01-01T10:04:00'', ''Kolamfan'')]"
  by code_simp

section \<open>The claims\<close>



text \<open>
  Claim C3. When a row with username \<open>un\<close> exists, the \<^verbatim>\<open>INSERT\<close> itself raises
  \<^verbatim>\<open>IntegrityError\<close> (the function makes no lookup before it), whatever the password;
  \<^verbatim>\<open>create_user\<close> returns \<open>False\<close> and the store is the one it was given.
\<close>

theorem duplicate_username_rejected:
  assumes "un \<in> set (map username (users d))"
  shows "insert_user d un (hash_password sha256 pw) now = Inl IntegrityError
     \<and> create_user sha256 d un pw now = (False, d)"
  using assms by (simp add: create_user_def insert_user_def)

theorem duplicate_username_rejected_witness:
  "create_user (\<lambda>p. of_nat (length p))
     \<lparr>users = [\<lparr>u_id = 1, username = ''asha'', password = ''00'', u_created_at = ''2024-01-01T10:00:00''\<rparr>],
      artworks = [], comments = []\<rparr>
     ''asha'' ''other'' ''2024-01-02T09:30:00''
   = (False,
      \<lparr>users = [\<lparr>u_id = 1, username = ''asha'', password = ''00'', u_created_at = ''2024-01-01T10:00:00''\<rparr>],
       artworks = [], comments = []\<rparr>)"
  using duplicate_username_rejected
    [of "''asha''"
        "\<lparr>users = [\<lparr>u_id = 1, username = ''asha'', password = ''00'', u_created_at = ''2024-01-01T10:00:00''\<rparr>],
          artworks = [], comments = []\<rparr>"
        "\<lambda>p. of_nat (length p)" "''other''" "''2024-01-02T09:30:00''"]
  by simp

text \<open>
  Claim C4. In every state the application reaches, \<^verbatim>\<open>get_artworks\<close> returns a
  rearrangement of the list \<open>J\<close> that has, for each stored artwork in insertion order,
  the artwork's columns with the username of its owner; the rows are in descending order
  of \<open>created_at\<close>, and the rows of any one \<open>created_at\<close> value are in the order they
  have in \<open>J\<close>, the insertion order.
\<close>

theorem get_artworks_listing:
  "\<exists>J. list_all2 (joined (store (run sha256 evs))) J (artworks (store (run sha256 evs)))
    \<and> mset (get_artworks (store (run sha256 evs))) = mset J
    \<and> sorted_wrt (\<lambda>r s. row_created_at s \<le> row_created_at r) (get_artworks (store (run sha256 evs)))
    \<and> (\<forall>k. filter (\<lambda>r. row_created_at r = k) (get_artworks (store (run sha256 evs)))
           = filter (\<lambda>r. row_created_at r = k) J)"
  using app_inv_run [of sha256 evs]
  by (intro get_artworks_of_store) (simp_all add: app_inv_def)

theorem get_artworks_listing_witness:
  "get_artworks (store (run (\<lambda>p. of_nat (length p))
       [Sign_Up 0 ''asha'' ''pass123'' ''2024-01-01T10:00:00'',
        Sign_Up 1 ''ravi'' ''secret'' ''2024-01-01T10:01:00'',
        Login 0 ''asha'' ''pass123'',
        Login 1 ''ravi'' ''secret'',
        Save_Artwork 0 ''Sunrise'' ''aa'' ''2024-01-01T10:05:00'',
        Save_Artwork 1 ''Noon'' ''bb'' ''2024-01-01T12:00:00'',
        Save_Artwork 0 ''Noon again'' ''cc'' ''2024-01-01T12:00:00'',
        Save_Artwork 0 ''Later'' ''dd'' ''2024-01-01T12:00:00.000250'',
        Like 1 '''' Newest 3, Like 0 ''NOON'' Most_Liked 3, Like 1 ''x'' Newest 9]))
   = [(4, ''Later'', ''dd'', 0, ''2024-01-01T12:00:00.000250'', ''asha''),
      (2, ''Noon'', ''bb'', 0, ''2024-01-01T12:00:00'', ''ravi''),
      (3, ''Noon again'', ''cc'', 2, ''2024-01-01T12:00:00'', ''asha''),
      (1, ''Sunrise'', ''aa'', 0, ''2024-01-01T10:05:00'', ''asha'')]
   \<and> sorted_wrt (\<lambda>r s. row_created_at s \<le> row_created_at r)
       (get_artworks (store (run (\<lambda>p. of_nat (length p))
       [Sign_Up 0 ''asha'' ''pass123'' ''2024-01-01T10:00:00'',
        Sign_Up 1 ''ravi'' ''secret'' ''2024-01-01T10:01:00'',
        Login 0 ''asha'' ''pass123'',
        Login 1 ''ravi'' ''secret'',
        Save_Artwork 0 ''Sunrise'' ''aa'' ''2024-01-01T10:05:00'',
        Save_Artwork 1 ''Noon'' ''bb'' ''2024-01-01T12:00:00'',
        Save_Artwork 0 ''Noon again'' ''cc'' ''2024-01-01T12:00:00'',
        Save_Artwork 0 ''Later'' ''dd'' ''2024-01-01T12:00:00.000250'',
        Like 1 '''' Newest 3, Like 0 ''NOON'' Most_Liked 3, Like 1 ''x'' Newest 9])))"
proof -
  from get_artworks_listing
    [of "\<lambda>p. of_nat (length p)"
        "[Sign_Up 0 ''asha'' ''pass123'' ''2024-01-01T10:00:00'',
        Sign_Up 1 ''ravi'' ''secret'' ''2024-01-01T10:01:00'',
        Login 0 ''asha'' ''pass123'',
        Login 1 ''ravi'' ''secret'',
        Save_Artwork 0 ''Sunrise'' ''aa'' ''2024-01-01T10:05:00'',
        Save_Artwork 1 ''Noon'' ''bb'' ''2024-01-01T12:00:00'',
        Save_Artwork 0 ''Noon again'' ''cc'' ''2024-01-01T12:00:00'',
        Save_Artwork 0 ''Later'' ''dd'' ''2024-01-01T12:00:00.000250'',
        Like 1 '''' Newest 3, Like 0 ''NOON'' Most_Liked 3, Like 1 ''x'' Newest 9]"]
  have "sorted_wrt (\<lambda>r s. row_created_at s \<le> row_created_at r)
       (get_artworks (store (run (\<lambda>p. of_nat (length p))
       [Sign_Up 0 ''asha'' ''pass123'' ''2024-01-01T10:00:00'',
        Sign_Up 1 ''ravi'' ''secret'' ''2024-01-01T10:01:00'',
        Login 0 ''asha'' ''pass123'',
        Login 1 ''ravi'' ''secret'',
        Save_Artwork 0 ''Sunrise'' ''aa'' ''2024-01-01T10:05:00'',
        Save_Artwork 1 ''Noon'' ''bb'' ''2024-01-01T12:00:00'',
        Save_Artwork 0 ''Noon again'' ''cc'' ''2024-01-01T12:00:00'',
        Save_Artwork 0 ''Later'' ''dd'' ''2024-01-01T12:00:00.000250'',
        Like 1 '''' Newest 3, Like 0 ''NOON'' Most_Liked 3, Like 1 ''x'' Newest 9])))"
    by blast
  with gallery_example show ?thesis
    by (intro conjI)
qed

text \<open>
  Claim C5 fails on the code. The gallery holds one row whose title is the two Greek
  capital letters alpha and sigma (U+0391 U+03A3, in UTF-8 the bytes CE 91 CE A3), and
  the search term is the capital sigma alone (CE A3). The title contains the term as it
  stands, so the specification's \<open>filterBySearchTerm\<close> returns the row. The code compares
  the lower-case forms: the sigma at the end of the title becomes the final small sigma
  and the sigma of the term the plain small sigma, the term is not found, and the loop
  renders no row.
\<close>

theorem search_misses_final_sigma:
  "py_lower [CHR 0xCE, CHR 0x91, CHR 0xCE, CHR 0xA3] = [CHR 0xCE, CHR 0xB1, CHR 0xCF, CHR 0x82]
   \<and> py_lower [CHR 0xCE, CHR 0xA3] = [CHR 0xCF, CHR 0x83]
   \<and> gallery_loop [CHR 0xCE, CHR 0xA3]
         [(1, [CHR 0xCE, CHR 0x91, CHR 0xCE, CHR 0xA3], ''iVBORw0KGgo='', 0,
           ''2024-01-01T10:05:00'', ''asha'')] = []
   \<and> filterBySearchTerm
         [(1, [CHR 0xCE, CHR 0x91, CHR 0xCE, CHR 0xA3], ''iVBORw0KGgo='', 0,
           ''2024-01-01T10:05:00'', ''asha'')] [CHR 0xCE, CHR 0xA3]
       = [(1, [CHR 0xCE, CHR 0x91, CHR 0xCE, CHR 0xA3], ''iVBORw0KGgo='', 0,
           ''2024-01-01T10:05:00'', ''asha'')]"
  by code_simp




text \<open>
  Claim C7. In every state the application reaches, every artwork's \<open>user_id\<close> is the
  id of a user; in particular this is so after any press of the save button in such a
  state, whatever the session, title, image and time.
\<close>

theorem owners_exist_reachable:
  "owners_exist (store (run sha256 evs))
   \<and> owners_exist (store (step sha256 (run sha256 evs) (Save_Artwork k ttl img now)))"
proof -
  have "app_inv (run sha256 (evs @ [Save_Artwork k ttl img now]))"
    by (rule app_inv_run)
  then have "app_inv (step sha256 (run sha256 evs) (Save_Artwork k ttl img now))"
    by (simp add: run_def)
  with app_inv_run [of sha256 evs] show ?thesis
    by (simp add: app_inv_def)
qed

theorem owners_exist_reachable_witness:
  "owners_exist (store (run (\<lambda>p. of_nat (length p))
       [Sign_Up 0 ''asha'' ''pass123'' ''2024-01-01T10:00:00'',
        Login 0 ''asha'' ''pass123'']))
   \<and> owners_exist (store (step (\<lambda>p. of_nat (length p))
        (run (\<lambda>p. of_nat (length p))
          [Sign_Up 0 ''asha'' ''pass123'' ''2024-01-01T10:00:00'',
           Login 0 ''asha'' ''pass123''])
        (Save_Artwork 0 ''Sunrise'' ''iVBORw0KGgo='' ''2024-01-01T10:05:00'')))
   \<and> map user_id (artworks (store (step (\<lambda>p. of_nat (length p))
        (run (\<lambda>p. of_nat (length p))
          [Sign_Up 0 ''asha'' ''pass123'' ''2024-01-01T10:00:00'',
           Login 0 ''asha'' ''pass123''])
        (Save_Artwork 0 ''Sunrise'' ''iVBORw0KGgo='' ''2024-01-01T10:05:00'')))) = [1]
   \<and> map u_id (users (store (run (\<lambda>p. of_nat (length p))
       [Sign_Up 0 ''asha'' ''pass123'' ''2024-01-01T10:00:00'',
        Login 0 ''asha'' ''pass123'']))) = [1]"
proof -
  have saved: "map user_id (artworks (store (step (\<lambda>p. of_nat (length p))
        (run (\<lambda>p. of_nat (length p))
          [Sign_Up 0 ''asha'' ''pass123'' ''2024-01-01T10:00:00'',
           Login 0 ''asha'' ''pass123''])
        (Save_Artwork 0 ''Sunrise'' ''iVBORw0KGgo='' ''2024-01-01T10:05:00'')))) = [1]"
    by (simp add: run_def init_app_def init_db_def logged_out_def create_user_def insert_user_def
          authenticate_user_def save_artwork_def next_rowid_def in_int64_def)
  have user: "map u_id (users (store (run (\<lambda>p. of_nat (length p))
       [Sign_Up 0 ''asha'' ''pass123'' ''2024-01-01T10:00:00'',
        Login 0 ''asha'' ''pass123'']))) = [1]"
    by (simp add: run_def init_app_def init_db_def logged_out_def create_user_def insert_user_def
          authenticate_user_def next_rowid_def)
  from owners_exist_reachable
    [of "\<lambda>p. of_nat (length p)"
        "[Sign_Up 0 ''asha'' ''pass123'' ''2024-01-01T10:00:00'',
          Login 0 ''asha'' ''pass123'']"
        0 "''Sunrise''" "''iVBORw0KGgo=''" "''2024-01-01T10:05:00''"]
    saved user
  show ?thesis by (intro conjI) simp_all
qed

text \<open>
  Claim C8. With usernames not repeated (the \<^verbatim>\<open>UNIQUE\<close> column), a user \<open>un\<close> whose
  stored hash is the hash of the password \<open>pw\<close> the account was created with, and a
  wrong password \<open>pw'\<close>, one whose hash is not the stored one, \<^verbatim>\<open>authenticate_user\<close>
  returns \<^verbatim>\<open>None\<close>. The check the code makes is the match of the hashes.
\<close>

theorem wrong_password_rejected:
  assumes "distinct (map username (users d))"
    and "u \<in> set (users d)" and "username u = un"
    and "password u = hash_password sha256 pw"
    and "hash_password sha256 pw' \<noteq> hash_password sha256 pw"
  shows "authenticate_user sha256 d un pw' = None"
proof -
  have "\<And>v. v \<in> set (users d) \<Longrightarrow> username v = un \<Longrightarrow> v = u"
    using assms(1-3) by (auto simp: distinct_map inj_on_def)
  then have "filter (\<lambda>v. username v = un \<and> password v = hash_password sha256 pw') (users d) = []"
    using assms(4,5) by (auto simp: filter_empty_conv)
  then show ?thesis by (simp add: authenticate_user_def)
qed

theorem wrong_password_rejected_witness:
  "authenticate_user (\<lambda>p. of_nat (length p))
     \<lparr>users = [\<lparr>u_id = 1, username = ''asha'',
                password = hash_password (\<lambda>p. of_nat (length p)) ''pass123'',
                u_created_at = ''2024-01-01T10:00:00''\<rparr>],
      artworks = [], comments = []\<rparr>
     ''asha'' ''wrong'' = None"
proof -
  have h: "hash_password (\<lambda>p. of_nat (length p)) ''wrong''
           \<noteq> hash_password (\<lambda>p. of_nat (length p)) ''pass123''"
    using hexdigest_5_7 by (simp add: hash_password_def)
  show ?thesis
    by (rule wrong_password_rejected
         [where pw = "''pass123''"
            and u = "\<lparr>u_id = 1, username = ''asha'',
                password = hash_password (\<lambda>p. of_nat (length p)) ''pass123'',
                u_created_at = ''2024-01-01T10:00:00''\<rparr>"])
       (simp_all add: h)
qed

text \<open>
  Claim C9. For every store and search term the gallery page renders the same rows with
  \<open>Newest\<close> and with \<open>Most_Liked\<close> selected.
\<close>

theorem sort_by_ignored:
  "community_gallery d search_term Newest = community_gallery d search_term Most_Liked"
  by (simp add: community_gallery_def)

text \<open>
  Claim C10, as amended. \<^verbatim>\<open>like_artwork\<close> with an id that no artwork has, when the id
  fits 64 bits, returns normally with the store it was given: users, artworks and
  comments are unchanged. When the id does not fit, the call raises
  \<^verbatim>\<open>OverflowError\<close>.
\<close>

theorem like_unknown_artwork:
  assumes "aid \<notin> set (map a_id (artworks d))"
  shows "like_artwork d aid = (if in_int64 aid then Inr d else Inl OverflowError)"
proof -
  have "map (\<lambda>a. if a_id a = aid then a\<lparr>likes := likes a + 1\<rparr> else a) (artworks d) = artworks d"
    using assms by (intro map_idI) auto
  then show ?thesis by (simp add: like_artwork_def)
qed

theorem like_unknown_artwork_witness:
  "like_artwork
     \<lparr>users = [\<lparr>u_id = 1, username = ''asha'', password = ''00'', u_created_at = ''2024-01-01T10:00:00''\<rparr>],
      artworks = [\<lparr>a_id = 1, user_id = 1, title = ''Sunrise'', image_data = ''iVBORw0KGgo='',
                   likes = 3, created_at = ''2024-01-01T10:05:00''\<rparr>],
      comments = []\<rparr> 2
   = Inr \<lparr>users = [\<lparr>u_id = 1, username = ''asha'', password = ''00'', u_created_at = ''2024-01-01T10:00:00''\<rparr>],
      artworks = [\<lparr>a_id = 1, user_id = 1, title = ''Sunrise'', image_data = ''iVBORw0KGgo='',
                   likes = 3, created_at = ''2024-01-01T10:05:00''\<rparr>],
      comments = []\<rparr>"
  using like_unknown_artwork
    [of 2 "\<lparr>users = [\<lparr>u_id = 1, username = ''asha'', password = ''00'', u_created_at = ''2024-01-01T10:00:00''\<rparr>],
      artworks = [\<lparr>a_id = 1, user_id = 1, title = ''Sunrise'', image_data = ''iVBORw0KGgo='',
                   likes = 3, created_at = ''2024-01-01T10:05:00''\<rparr>],
      comments = []\<rparr>"]
  by (simp add: in_int64_def)

text \<open>
  Claim C10 as stated fails: no artwork has the id \<open>2 ^ 63\<close>, and the call with it does
  not return normally.
\<close>

theorem like_unknown_artwork_overflow:
  "2 ^ 63 \<notin> set (map a_id (artworks
       \<lparr>users = [\<lparr>u_id = 1, username = ''asha'', password = ''00'', u_created_at = ''2024-01-01T10:00:00''\<rparr>],
        artworks = [\<lparr>a_id = 1, user_id = 1, title = ''Sunrise'', image_data = ''iVBORw0KGgo='',
                     likes = 3, created_at = ''2024-01-01T10:05:00''\<rparr>],
        comments = []\<rparr>))
   \<and> like_artwork
       \<lparr>users = [\<lparr>u_id = 1, username = ''asha'', password = ''00'', u_created_at = ''2024-01-01T10:00:00''\<rparr>],
        artworks = [\<lparr>a_id = 1, user_id = 1, title = ''Sunrise'', image_data = ''iVBORw0KGgo='',
                     likes = 3, created_at = ''2024-01-01T10:05:00''\<rparr>],
        comments = []\<rparr> (2 ^ 63)
     = Inl OverflowError"
  by (simp add: like_artwork_def in_int64_def)

end
